theory Spec2Isabelle
  imports
    Complex_Main
    "HOL-Library.AList"
    "HOL-Library.Char_ord"
    "HOL-Library.List_Lexorder"
    "HOL-Library.Sublist"
begin

section \<open>Ingredient consolidation: analysis and finalization\<close>

text \<open>
  A shallow embedding of \<^verbatim>\<open>scripts/analyzeConsolidation.py\<close> and
  \<^verbatim>\<open>scripts/finalizeConsolidation.py\<close>.

  Conventions of the model.
  \<^item> A Python \<^verbatim>\<open>str\<close> is a \<open>string\<close>, read as ASCII text. The character classes
    of Python (\<^verbatim>\<open>str.isspace\<close>, \<^verbatim>\<open>\w\<close>, \<^verbatim>\<open>str.upper\<close>) are modelled on
    ASCII, where the model is exact; a character outside ASCII counts as a character
    without case that is neither whitespace nor a word character.
  \<^item> A Python \<^verbatim>\<open>dict\<close> (also \<^verbatim>\<open>defaultdict\<close>, \<^verbatim>\<open>Counter\<close>) is an association
    list in insertion order with distinct keys: storing under an existing key replaces
    the value in place, storing under a new key appends (\<open>AList.update\<close>).
  \<^item> A data frame is the list of its rows \<open>(pd_name, food_group)\<close>.
  \<^item> An exception is a value \<open>Inl e\<close> of a sum type.
  \<^item> Scores are Python floats; the model computes them as exact rationals.
\<close>

subsection \<open>Strings\<close>

text \<open>
  \<^verbatim>\<open>str.isspace\<close> on ASCII: tab, line feed, vertical tab, form feed, carriage return,
  the four separators \<^verbatim>\<open>\x1c\<close> to \<^verbatim>\<open>\x1f\<close>, and space. \<^verbatim>\<open>str.strip()\<close>,
  \<^verbatim>\<open>str.split()\<close> and the pattern \<^verbatim>\<open>\s\<close> all use this class.
\<close>

definition is_space :: "char \<Rightarrow> bool" where
  "is_space c = (c \<in> set [CHR 0x09, CHR 0x0A, CHR 0x0B, CHR 0x0C, CHR 0x0D,
                           CHR 0x1C, CHR 0x1D, CHR 0x1E, CHR 0x1F, CHR 0x20])"

text \<open>\<^verbatim>\<open>s.strip()\<close>\<close>

definition strip :: "string \<Rightarrow> string" where
  "strip s = rev (dropWhile is_space (rev (dropWhile is_space s)))"

text \<open>\<^verbatim>\<open>s.startswith(p)\<close> and \<^verbatim>\<open>s.endswith(p)\<close>\<close>

definition startswith :: "string \<Rightarrow> string \<Rightarrow> bool" where
  "startswith s p = (take (length p) s = p)"

definition endswith :: "string \<Rightarrow> string \<Rightarrow> bool" where
  "endswith s p = (length p \<le> length s \<and> drop (length s - length p) s = p)"

subsection \<open>Dictionaries\<close>

text \<open>\<^verbatim>\<open>k in d\<close>\<close>

definition dict_has :: "('k \<times> 'v) list \<Rightarrow> 'k \<Rightarrow> bool" where
  "dict_has d k = (k \<in> fst ` set d)"

text \<open>\<^verbatim>\<open>d.get(k, dflt)\<close>\<close>

definition dict_get :: "('k \<times> 'v) list \<Rightarrow> 'k \<Rightarrow> 'v \<Rightarrow> 'v" where
  "dict_get d k dflt = (case map_of d k of None \<Rightarrow> dflt | Some v \<Rightarrow> v)"

text \<open>
  \<^verbatim>\<open>d[k].append(v)\<close> on a \<^verbatim>\<open>defaultdict(list)\<close>: a missing key is first
  inserted with the empty list.
\<close>

definition dict_append :: "('k \<times> 'v list) list \<Rightarrow> 'k \<Rightarrow> 'v \<Rightarrow> ('k \<times> 'v list) list" where
  "dict_append d k v =
     (if dict_has d k then AList.map_entry k (\<lambda>vs. vs @ [v]) d else d @ [(k, [v])])"

text \<open>
  \<^verbatim>\<open>c[k] += 1\<close> on a \<^verbatim>\<open>Counter\<close> or a \<^verbatim>\<open>defaultdict(int)\<close>: a missing
  key counts as 0.
\<close>

definition counter_add :: "('k \<times> nat) list \<Rightarrow> 'k \<Rightarrow> ('k \<times> nat) list" where
  "counter_add c k = AList.update k (dict_get c k 0 + 1) c"

text \<open>
  A Python \<^verbatim>\<open>set\<close> that is iterated is a list without repetition, in insertion
  order; \<^verbatim>\<open>s.add(x)\<close> is \<open>set_add\<close>. (Python leaves the iteration order of a set
  open; the model fixes one.) \<^verbatim>\<open>d[k].add(v)\<close> on a \<^verbatim>\<open>defaultdict(set)\<close> is
  \<open>posting_add\<close>.
\<close>

definition set_add :: "'a list \<Rightarrow> 'a \<Rightarrow> 'a list" where
  "set_add xs x = (if x \<in> set xs then xs else xs @ [x])"

definition posting_add :: "('k \<times> 'v list) list \<Rightarrow> 'k \<Rightarrow> 'v \<Rightarrow> ('k \<times> 'v list) list" where
  "posting_add d k v =
     (if dict_has d k then AList.map_entry k (\<lambda>vs. set_add vs v) d else d @ [(k, [v])])"

subsection \<open>Data\<close>

text \<open>The dictionaries \<^verbatim>\<open>{'name': ..., 'food_group': ...}\<close> of both scripts.\<close>

record child =
  name :: string
  food_group :: string

text \<open>The entries of \<^verbatim>\<open>all_ingredients\<close>: a child record with its depth.\<close>

record node = child +
  hierarchy_depth :: nat

datatype error = IndexError

type_synonym consolidations = "(string \<times> child list) list"

type_synonym dataframe = "(string \<times> string) list"

subsection \<open>Tokenizer: \<^verbatim>\<open>clean_ingredient_name\<close>, \<^verbatim>\<open>extract_meaningful_words\<close>\<close>

definition MIN_WORD_LENGTH :: nat where
  "MIN_WORD_LENGTH = 3"

definition COMMON_ARTICLES :: "string list" where
  "COMMON_ARTICLES =
     [''THE'', ''AND'', ''OR'', ''OF'', ''IN'', ''ON'', ''AT'', ''TO'', ''FOR'', ''WITH'']"

text \<open>\<^verbatim>\<open>str.upper\<close> on ASCII.\<close>

definition upper_char :: "char \<Rightarrow> char" where
  "upper_char c =
     (if CHR ''a'' \<le> c \<and> c \<le> CHR ''z'' then char_of (of_char c - (32::nat)) else c)"

definition upper :: "string \<Rightarrow> string" where
  "upper s = map upper_char s"

text \<open>The class \<^verbatim>\<open>\w\<close> on ASCII: letters, digits and the underscore.\<close>

definition is_word_char :: "char \<Rightarrow> bool" where
  "is_word_char c =
     ((CHR ''a'' \<le> c \<and> c \<le> CHR ''z'') \<or> (CHR ''A'' \<le> c \<and> c \<le> CHR ''Z'') \<or>
      (CHR ''0'' \<le> c \<and> c \<le> CHR ''9'') \<or> c = CHR ''_'')"

text \<open>\<^verbatim>\<open>re.sub(r'[^\w\s\-\,\.]', ' ', name)\<close>\<close>

definition sub_special :: "string \<Rightarrow> string" where
  "sub_special s =
     map (\<lambda>c. if is_word_char c \<or> is_space c \<or> c = CHR ''-'' \<or> c = CHR '','' \<or> c = CHR ''.''
              then c else CHR '' '') s"

text \<open>\<^verbatim>\<open>re.sub(r'\s+', ' ', name)\<close>: every maximal run of whitespace becomes one space.\<close>

function sub_whitespace :: "string \<Rightarrow> string" where
  "sub_whitespace [] = []"
| "sub_whitespace (c # cs) =
     (if is_space c then CHR '' '' # sub_whitespace (dropWhile is_space cs)
      else c # sub_whitespace cs)"
  by pat_completeness auto
termination
  by (relation "measure length") (auto simp: length_dropWhile_le less_Suc_eq_le)

definition clean_ingredient_name :: "string \<Rightarrow> string" where
  "clean_ingredient_name name0 = strip (sub_whitespace (sub_special (strip (upper name0))))"

text \<open>\<^verbatim>\<open>s.split()\<close>: the maximal runs of characters that are not whitespace.\<close>

fun split_acc :: "string \<Rightarrow> string \<Rightarrow> string list" where
  "split_acc acc [] = (if acc = [] then [] else [acc])"
| "split_acc acc (c # cs) =
     (if is_space c then (if acc = [] then split_acc [] cs else acc # split_acc [] cs)
      else split_acc (acc @ [c]) cs)"

definition split_ws :: "string \<Rightarrow> string list" where
  "split_ws s = split_acc [] s"

definition extract_meaningful_words :: "string \<Rightarrow> string list" where
  "extract_meaningful_words ingredient_name =
     filter (\<lambda>word. MIN_WORD_LENGTH \<le> length word \<and> word \<notin> set COMMON_ARTICLES)
       (split_ws (clean_ingredient_name ingredient_name))"

subsection \<open>Word index: \<^verbatim>\<open>find_word_frequencies\<close>\<close>

text \<open>
  The pair \<^verbatim>\<open>(word_frequency, word_to_ingredients)\<close>. The inner loop runs over the
  word list of one row, the outer loop over the rows.
\<close>

type_synonym word_index = "(string \<times> nat) list \<times> (string \<times> string list) list"

definition index_word :: "string \<Rightarrow> word_index \<Rightarrow> string \<Rightarrow> word_index" where
  "index_word ingredient_name idx word =
     (counter_add (fst idx) word, posting_add (snd idx) word ingredient_name)"

definition index_row :: "word_index \<Rightarrow> string \<times> string \<Rightarrow> word_index" where
  "index_row idx row = foldl (index_word (fst row)) idx (extract_meaningful_words (fst row))"

definition find_word_frequencies :: "dataframe \<Rightarrow> word_index" where
  "find_word_frequencies ingredients_df = foldl index_row ([], []) ingredients_df"

subsection \<open>Scores: \<^verbatim>\<open>calculate_grouping_potential\<close>\<close>

definition MIN_GROUP_SIZE :: nat where "MIN_GROUP_SIZE = 2"
definition MAX_INGREDIENT_PERCENTAGE :: rat where "MAX_INGREDIENT_PERCENTAGE = 1 / 10"
definition MIN_SCORE_THRESHOLD :: rat where "MIN_SCORE_THRESHOLD = 30"
definition MAX_FREQUENCY_SCORE :: rat where "MAX_FREQUENCY_SCORE = 100"
definition BEGINNING_WORD_BONUS :: rat where "BEGINNING_WORD_BONUS = 30"
definition MEDIUM_WORD_BONUS :: rat where "MEDIUM_WORD_BONUS = 10"
definition LONG_WORD_BONUS :: rat where "LONG_WORD_BONUS = 20"
definition COHERENCE_MULTIPLIER :: rat where "COHERENCE_MULTIPLIER = 40"
definition MAX_PARENTS_PER_INGREDIENT :: nat where "MAX_PARENTS_PER_INGREDIENT = 3"
definition PROCESSING_TERM_THRESHOLD :: rat where "PROCESSING_TERM_THRESHOLD = 15 / 100"
definition BASE_WORD_DIVERSITY_RATIO :: rat where "BASE_WORD_DIVERSITY_RATIO = 3 / 10"

text \<open>
  \<^verbatim>\<open>other_words_counter\<close>: the words of the postings other than the grouping word,
  counted with repetition.
\<close>

definition other_words_counter :: "string \<Rightarrow> string list \<Rightarrow> (string \<times> nat) list" where
  "other_words_counter word ingredients_with_word =
     foldl counter_add []
       (concat (map (\<lambda>ingredient. filter (\<lambda>w. w \<noteq> word) (extract_meaningful_words ingredient))
                  ingredients_with_word))"

definition calculate_word_coherence :: "string \<Rightarrow> string list \<Rightarrow> rat" where
  "calculate_word_coherence word ingredients_with_word =
     (if length ingredients_with_word < MIN_GROUP_SIZE then 0
      else let counter = other_words_counter word ingredients_with_word in
        if sum_list (map snd counter) = 0 then 0
        else (of_nat (length (filter (\<lambda>(w, count). 1 < count) counter)) / of_nat (length counter))
               * COHERENCE_MULTIPLIER)"

definition calculate_grouping_potential :: "string \<Rightarrow> string list \<Rightarrow> string list \<Rightarrow> rat" where
  "calculate_grouping_potential word ingredients_with_word all_ingredients =
     (let num_ingredients = length ingredients_with_word in
      if num_ingredients < MIN_GROUP_SIZE then 0
      else if of_nat (length all_ingredients) * MAX_INGREDIENT_PERCENTAGE < of_nat num_ingredients then 0
      else
        min (of_nat (num_ingredients * 10)) MAX_FREQUENCY_SCORE
        + calculate_word_coherence word ingredients_with_word
        + (of_nat (length (filter (\<lambda>ing. startswith (clean_ingredient_name ing) (word @ '' ''))
                             ingredients_with_word))
             / of_nat num_ingredients) * BEGINNING_WORD_BONUS
        + (if 6 \<le> length word then LONG_WORD_BONUS
           else if 4 \<le> length word then MEDIUM_WORD_BONUS else 0))"

subsection \<open>Processing terms: \<^verbatim>\<open>identify_processing_terms_dynamically\<close>\<close>

definition base_word_diversity :: "string \<Rightarrow> string list \<Rightarrow> string set" where
  "base_word_diversity word ingredients =
     set (concat (map (\<lambda>ingredient.
                         filter (\<lambda>w. w \<noteq> word \<and> 4 \<le> length w) (extract_meaningful_words ingredient))
                    ingredients))"

definition identify_processing_terms_dynamically ::
  "(string \<times> nat) list \<Rightarrow> (string \<times> string list) list \<Rightarrow> string set" where
  "identify_processing_terms_dynamically word_frequency word_to_ingredients =
     set (map fst
       (filter (\<lambda>(word, frequency).
            of_nat (length word_to_ingredients) * PROCESSING_TERM_THRESHOLD < of_nat frequency \<and>
            of_nat frequency * BASE_WORD_DIVERSITY_RATIO
              < of_nat (card (base_word_diversity word (dict_get word_to_ingredients word []))))
          word_frequency))"

subsection \<open>Group assignment: \<^verbatim>\<open>find_consolidation_groups\<close>\<close>

text \<open>The dictionary \<^verbatim>\<open>word_scores\<close>, in the order of \<^verbatim>\<open>word_to_ingredients\<close>.\<close>

definition word_scores :: "dataframe \<Rightarrow> (string \<times> rat) list" where
  "word_scores ingredients_df =
     (let idx = find_word_frequencies ingredients_df;
          processing_terms = identify_processing_terms_dynamically (fst idx) (snd idx) in
      filter (\<lambda>(word, score). MIN_SCORE_THRESHOLD \<le> score)
        (map (\<lambda>(word, ingredients_with_word).
                (word, calculate_grouping_potential word ingredients_with_word
                         (map fst ingredients_df)))
           (filter (\<lambda>(word, ingredients_with_word). word \<notin> processing_terms) (snd idx))))"

text \<open>
  \<^verbatim>\<open>sorted(word_scores.items(), key=lambda x: x[1], reverse=True)\<close>. Python's sort
  is stable, also with \<^verbatim>\<open>reverse=True\<close>: items with equal keys keep their order.
  This is the stable ascending sort by the negated score.
\<close>

definition sorted_words :: "dataframe \<Rightarrow> (string \<times> rat) list" where
  "sorted_words ingredients_df = sort_key (\<lambda>x. - snd x) (word_scores ingredients_df)"

text \<open>
  The state of the assignment loop is \<^verbatim>\<open>consolidation_groups\<close> and
  \<^verbatim>\<open>ingredient_parent_count\<close>. The inner loop looks up the food group of each
  available ingredient in the first row of that name (\<^verbatim>\<open>.iloc[0]\<close>, which raises
  \<^verbatim>\<open>IndexError\<close> when there is none) and increments its count.
\<close>

type_synonym assign_state = "consolidations \<times> (string \<times> nat) list"

fun add_members ::
  "dataframe \<Rightarrow> string list \<Rightarrow> child list \<times> (string \<times> nat) list
     \<Rightarrow> error + child list \<times> (string \<times> nat) list" where
  "add_members ingredients_df [] st = Inr st"
| "add_members ingredients_df (ingredient # rest) (group_data, parent_count) =
     (case map_of ingredients_df ingredient of
        None \<Rightarrow> Inl IndexError
      | Some fg \<Rightarrow>
          add_members ingredients_df rest
            (group_data @ [\<lparr>name = ingredient, food_group = fg\<rparr>],
             counter_add parent_count ingredient))"

definition available_ingredients :: "(string \<times> nat) list \<Rightarrow> string list \<Rightarrow> string list" where
  "available_ingredients parent_count ingredients_with_word =
     filter (\<lambda>ing. dict_get parent_count ing 0 < MAX_PARENTS_PER_INGREDIENT) ingredients_with_word"

definition assign_word ::
  "dataframe \<Rightarrow> (string \<times> string list) list \<Rightarrow> assign_state \<Rightarrow> string \<times> rat
     \<Rightarrow> error + assign_state" where
  "assign_word ingredients_df word_to_ingredients st ws =
     (let available = available_ingredients (snd st) (dict_get word_to_ingredients (fst ws) []) in
      if 2 \<le> length available then
        (case add_members ingredients_df available ([], snd st) of
           Inl e \<Rightarrow> Inl e
         | Inr (group_data, parent_count) \<Rightarrow>
             Inr (AList.update (fst ws) group_data (fst st), parent_count))
      else Inr st)"

fun assign_groups ::
  "dataframe \<Rightarrow> (string \<times> string list) list \<Rightarrow> (string \<times> rat) list \<Rightarrow> assign_state
     \<Rightarrow> error + assign_state" where
  "assign_groups ingredients_df word_to_ingredients [] st = Inr st"
| "assign_groups ingredients_df word_to_ingredients (ws # rest) st =
     (case assign_word ingredients_df word_to_ingredients st ws of
        Inl e \<Rightarrow> Inl e
      | Inr st' \<Rightarrow> assign_groups ingredients_df word_to_ingredients rest st')"

text \<open>The loop run on a prefix of the sorted words, from the empty state.\<close>

definition assign_prefix :: "dataframe \<Rightarrow> nat \<Rightarrow> error + assign_state" where
  "assign_prefix ingredients_df k =
     assign_groups ingredients_df (snd (find_word_frequencies ingredients_df))
       (take k (sorted_words ingredients_df)) ([], [])"

definition find_consolidation_groups :: "dataframe \<Rightarrow> error + consolidations" where
  "find_consolidation_groups ingredients_df =
     (case assign_groups ingredients_df (snd (find_word_frequencies ingredients_df))
             (sorted_words ingredients_df) ([], []) of
        Inl e \<Rightarrow> Inl e
      | Inr (consolidation_groups, parent_count) \<Rightarrow> Inr consolidation_groups)"

subsection \<open>Writing the proposal: \<^verbatim>\<open>generate_consolidation_proposal\<close>\<close>






subsection \<open>Reading the proposal: \<^verbatim>\<open>parse_consolidation_proposal\<close>\<close>

text \<open>
  Iterating over a file opened in text mode yields its lines; with universal newlines
  \<^verbatim>\<open>\n\<close>, \<^verbatim>\<open>\r\n\<close> and \<^verbatim>\<open>\r\<close> all end a line. The parser strips every
  line at once, so the model yields the lines without their terminator. A last line
  without terminator is yielded when it is not empty.
\<close>

fun file_lines_acc :: "string \<Rightarrow> string \<Rightarrow> string list" where
  "file_lines_acc acc [] = (if acc = [] then [] else [acc])"
| "file_lines_acc acc (c # cs) =
     (if c = CHR 0x0A then acc # file_lines_acc [] cs
      else if c = CHR 0x0D then
        (case cs of
           [] \<Rightarrow> [acc]
         | d # ds \<Rightarrow> if d = CHR 0x0A then acc # file_lines_acc [] ds
                     else acc # file_lines_acc [] cs)
      else file_lines_acc (acc @ [c]) cs)"

definition file_lines :: "string \<Rightarrow> string list" where
  "file_lines text = file_lines_acc [] text"

text \<open>\<^verbatim>\<open>line.split(',', 1)\<close> for a line that contains a comma.\<close>

definition split_first_comma :: "string \<Rightarrow> string \<times> string" where
  "split_first_comma line =
     (takeWhile (\<lambda>c. c \<noteq> CHR '','') line, tl (dropWhile (\<lambda>c. c \<noteq> CHR '','') line))"

text \<open>
  The loop state is the dictionary \<^verbatim>\<open>consolidations\<close> and \<^verbatim>\<open>current_parent\<close>
  (\<open>None\<close> for Python's \<^verbatim>\<open>None\<close>). One iteration of the loop body:
\<close>

definition parse_line :: "consolidations \<times> string option \<Rightarrow> string \<Rightarrow> consolidations \<times> string option" where
  "parse_line st raw =
     (let consolidations = fst st; current_parent = snd st; line = strip raw in
      if line = [] \<or> startswith line ''#'' then (consolidations, current_parent)
      else if startswith line ''['' \<and> endswith line '']'' then
        (AList.update (butlast (tl line)) [] consolidations, Some (butlast (tl line)))
      else if current_parent \<noteq> None \<and> current_parent \<noteq> Some [] \<and> CHR '','' \<in> set line then
        (AList.map_entry (the current_parent)
           (\<lambda>children. children @
              [\<lparr>name = strip (fst (split_first_comma line)),
                food_group = strip (snd (split_first_comma line))\<rparr>])
           consolidations,
         current_parent)
      else (consolidations, current_parent))"

text \<open>The loop over the lines, then the removal of the empty groups.\<close>

definition parse_lines :: "string list \<Rightarrow> consolidations" where
  "parse_lines ls = filter (\<lambda>(parent, children). children \<noteq> []) (fst (foldl parse_line ([], None) ls))"

definition parse_consolidation_proposal :: "string \<Rightarrow> consolidations" where
  "parse_consolidation_proposal text = parse_lines (file_lines text)"

subsection \<open>Building the hierarchy: \<^verbatim>\<open>generate_hierarchy_files\<close>\<close>

text \<open>
  \<^verbatim>\<open>Counter(food_groups)\<close> counts in first-seen order, and
  \<^verbatim>\<open>most_common(1)\<close> is \<^verbatim>\<open>max\<close> by count, which keeps the first of several
  maximal entries.
\<close>

fun first_max :: "('k \<times> nat) \<Rightarrow> ('k \<times> nat) list \<Rightarrow> ('k \<times> nat)" where
  "first_max best [] = best"
| "first_max best (x # xs) = first_max (if snd best < snd x then x else best) xs"

definition determine_parent_food_group :: "child list \<Rightarrow> error + string" where
  "determine_parent_food_group children =
     (case foldl counter_add [] (map food_group children) of
        [] \<Rightarrow> Inl IndexError
      | x # xs \<Rightarrow> Inr (fst (first_max x xs)))"

text \<open>
  The state of the first loop is \<^verbatim>\<open>all_ingredients\<close> and
  \<^verbatim>\<open>parent_child_relationships\<close>, a list of \<open>(parent_name, child_name)\<close>.
\<close>

type_synonym build_state = "(string \<times> node) list \<times> (string \<times> string) list"

text \<open>
  The pattern \<^verbatim>\<open>if n not in all_ingredients: all_ingredients[n] = {...}\<close>, which
  the build uses for parents, children and standalone ingredients.
\<close>

definition add_if_absent :: "(string \<times> node) list \<Rightarrow> node \<Rightarrow> (string \<times> node) list" where
  "add_if_absent ingredients n =
     (if dict_has ingredients (name n) then ingredients else ingredients @ [(name n, n)])"

fun add_children :: "string \<Rightarrow> child list \<Rightarrow> build_state \<Rightarrow> build_state" where
  "add_children parent_name [] st = st"
| "add_children parent_name (c # children) (ingredients, rels) =
     (if name c = parent_name then add_children parent_name children (ingredients, rels)
      else add_children parent_name children
        (add_if_absent ingredients
           \<lparr>name = name c, food_group = food_group c, hierarchy_depth = 1\<rparr>,
         rels @ [(parent_name, name c)]))"

fun add_parents :: "consolidations \<Rightarrow> build_state \<Rightarrow> error + build_state" where
  "add_parents [] st = Inr st"
| "add_parents ((parent_name, children) # rest) (ingredients, rels) =
     (case determine_parent_food_group children of
        Inl e \<Rightarrow> Inl e
      | Inr parent_food_group \<Rightarrow>
          add_parents rest
            (add_children parent_name children
               (add_if_absent ingredients
                  \<lparr>name = parent_name, food_group = parent_food_group, hierarchy_depth = 0\<rparr>,
                rels)))"

text \<open>The standalone ingredients of the original data frame.\<close>

fun add_standalone :: "dataframe \<Rightarrow> (string \<times> node) list \<Rightarrow> (string \<times> node) list" where
  "add_standalone [] ingredients = ingredients"
| "add_standalone ((pd_name, fg) # rows) ingredients =
     add_standalone rows
       (add_if_absent ingredients \<lparr>name = pd_name, food_group = fg, hierarchy_depth = 0\<rparr>)"

text \<open>\<^verbatim>\<open>child_to_parents\<close>, a \<^verbatim>\<open>defaultdict(list)\<close> filled from the relationships.\<close>

definition build_child_to_parents :: "(string \<times> string) list \<Rightarrow> (string \<times> string list) list" where
  "build_child_to_parents rels =
     foldl (\<lambda>child_to_parents (parent_name, child_name).
              dict_append child_to_parents child_name parent_name) [] rels"

text \<open>
  The inner function \<^verbatim>\<open>calculate_depth\<close>. Each recursive call receives
  \<^verbatim>\<open>visited.copy()\<close> after the current name was added, so the calls for two parents
  do not see each other's additions: the model passes the same enlarged set to each.
  Python's bound on the depth of the call stack is not modelled.
\<close>

function calculate_depth :: "(string \<times> string list) list \<Rightarrow> string \<Rightarrow> string set \<Rightarrow> nat" where
  "calculate_depth child_to_parents ingredient_name visited =
     (if ingredient_name \<in> visited then 0
      else if dict_get child_to_parents ingredient_name [] = [] then 0
      else fold (\<lambda>parent max_parent_depth.
                   max max_parent_depth
                     (calculate_depth child_to_parents parent (insert ingredient_name visited)))
             (dict_get child_to_parents ingredient_name []) 0 + 1)"
  by pat_completeness auto

text \<open>
  A nested call happens only for a name that has parents, so is a key of
  \<^verbatim>\<open>child_to_parents\<close>, and is not yet visited: the number of unvisited keys drops.
\<close>

lemma dict_get_nonempty_key: "dict_get d k [] \<noteq> [] \<Longrightarrow> k \<in> fst ` set d"
  by (auto simp: dict_get_def split: option.splits dest!: map_of_SomeD intro: rev_image_eqI)

lemma unvisited_keys_decrease:
  assumes "n \<notin> vis" and "n \<in> fst ` set g"
  shows "card (fst ` set g - insert n vis) < card (fst ` set g - vis)"
proof -
  have "fst ` set g - insert n vis \<subset> fst ` set g - vis"
    using assms by auto
  then show ?thesis
    by (intro psubset_card_mono) auto
qed

lemma calculate_depth_calls_finite: "calculate_depth_dom (g, n, vis)"
proof (induction "card (fst ` set g - vis)" arbitrary: n vis rule: less_induct)
  case less
  show ?case
  proof (rule accpI)
    fix y
    assume "calculate_depth_rel y (g, n, vis)"
    then obtain p where y: "y = (g, p, insert n vis)" and nv: "n \<notin> vis"
      and ne: "dict_get g n [] \<noteq> []"
      by (cases rule: calculate_depth_rel.cases) auto
    from ne have "n \<in> fst ` set g" by (rule dict_get_nonempty_key)
    with nv have "card (fst ` set g - insert n vis) < card (fst ` set g - vis)"
      by (rule unvisited_keys_decrease)
    then show "calculate_depth_dom y"
      unfolding y by (rule less)
  qed
qed

termination calculate_depth
  by (simp add: calculate_depth_calls_finite)

declare calculate_depth.simps [simp del]

text \<open>The result of the build: \<^verbatim>\<open>all_ingredients\<close> with the depths, and the relationships.\<close>

record hierarchy =
  all_ingredients :: "(string \<times> node) list"
  parent_child_relationships :: "(string \<times> string) list"

definition set_depths :: "(string \<times> string list) list \<Rightarrow> (string \<times> node) list \<Rightarrow> (string \<times> node) list" where
  "set_depths child_to_parents ingredients =
     map (\<lambda>(n, ing). (n, ing\<lparr>hierarchy_depth := calculate_depth child_to_parents n {}\<rparr>)) ingredients"

definition generate_hierarchy_files :: "consolidations \<Rightarrow> dataframe \<Rightarrow> error + hierarchy" where
  "generate_hierarchy_files consolidations original_df =
     (case add_parents consolidations ([], []) of
        Inl e \<Rightarrow> Inl e
      | Inr (ingredients, rels) \<Rightarrow>
          Inr \<lparr>all_ingredients =
                 set_depths (build_child_to_parents rels) (add_standalone original_df ingredients),
               parent_child_relationships = rels\<rparr>)"

text \<open>
  Two loop states of the parser agree on a parent when they have the same
  \<^verbatim>\<open>current_parent\<close> and the same entry for that parent.
\<close>

definition agree_on :: "string \<Rightarrow> consolidations \<times> string option \<Rightarrow> consolidations \<times> string option \<Rightarrow> bool" where
  "agree_on P s t = (snd s = snd t \<and> map_of (fst s) P = map_of (fst t) P)"

text \<open>
  A proposal in which the second child of the only group is commented out.
\<close>

definition proposal_one_child :: string where
  "proposal_one_child =
     ''[CHEESE]'' @ [CHR 0x0A] @ ''cheddar cheese,dairy'' @ [CHR 0x0A] @
     ''#swiss cheese,dairy'' @ [CHR 0x0A] @ [CHR 0x0A]"

text \<open>The four ingredients of the cheese example.\<close>

definition cheese_df :: dataframe where
  "cheese_df = [(''CHEDDAR CHEESE'', ''Dairy''), (''SWISS CHEESE'', ''Dairy''),
                (''COTTAGE CHEESE'', ''Dairy''), (''ORANGE JUICE'', ''Fruit'')]"


text \<open>
  Twenty ingredients, two of which share four candidate words, so that the fourth word
  finds both of them at the cap.
\<close>

definition cap_df :: dataframe where
  "cap_df =
     [(''AAA BBB CCC DDD 1'', ''Fruit''), (''AAA BBB CCC DDD 2'', ''Fruit''),
      (''Q'', ''X''), (''R'', ''X''),
      (''A'', ''X''), (''B'', ''X''), (''C'', ''X''), (''D'', ''X''), (''E'', ''X''), (''F'', ''X''),
      (''G'', ''X''), (''H'', ''X''), (''I'', ''X''), (''J'', ''X''), (''K'', ''X''), (''L'', ''X''),
      (''M'', ''X''), (''N'', ''X''), (''O'', ''X''), (''P'', ''X'')]"

text \<open>The number of groups that list an ingredient among their children.\<close>

definition groups_of :: "consolidations \<Rightarrow> string \<Rightarrow> nat" where
  "groups_of groups ing = length (filter (\<lambda>(word, children). ing \<in> name ` set children) groups)"








section \<open>Properties\<close>

subsection \<open>Depth computation\<close>

lemma calculate_depth_bound:
  "calculate_depth g n vis \<le> card (fst ` set g - vis)"
proof (induction g n vis rule: calculate_depth.induct)
  case (1 g n vis)
  show ?case
  proof (cases "n \<in> vis \<or> dict_get g n [] = []")
    case True
    then show ?thesis by (subst calculate_depth.simps) auto
  next
    case False
    then have nv: "n \<notin> vis" and ne: "dict_get g n [] \<noteq> []" by auto
    have key: "n \<in> fst ` set g" using ne by (rule dict_get_nonempty_key)
    have step: "\<And>p. p \<in> set (dict_get g n []) \<Longrightarrow>
        calculate_depth g p (insert n vis) \<le> card (fst ` set g - insert n vis)"
      using "1.IH" nv ne by blast
    have fold_le: "fold (\<lambda>p m. max m (calculate_depth g p (insert n vis))) ps m0 \<le> b"
      if "m0 \<le> b" and "\<And>p. p \<in> set ps \<Longrightarrow> calculate_depth g p (insert n vis) \<le> b"
      for ps m0 b
      using that by (induction ps arbitrary: m0) auto
    have "fold (\<lambda>p m. max m (calculate_depth g p (insert n vis))) (dict_get g n []) 0
            \<le> card (fst ` set g - insert n vis)"
      by (rule fold_le) (auto intro: step)
    moreover have "card (fst ` set g - insert n vis) < card (fst ` set g - vis)"
      using nv key by (rule unvisited_keys_decrease)
    ultimately show ?thesis
      using nv ne by (subst calculate_depth.simps) simp
  qed
qed

text \<open>
  C7. For every \<^verbatim>\<open>child_to_parents\<close> dictionary (cyclic or not), every starting
  name and every visited set, the recursion of \<^verbatim>\<open>calculate_depth\<close> terminates: the
  argument lies in the accessible part of the relation "is a nested call of", so
  every chain of nested calls is finite. The visited set bounds the traversal: the
  result never exceeds the number of keys that are not yet visited.
\<close>

theorem calculate_depth_terminates:
  "calculate_depth_dom (child_to_parents, ingredient_name, visited) \<and>
   calculate_depth child_to_parents ingredient_name visited
     \<le> card (fst ` set child_to_parents - visited)"
  using calculate_depth_calls_finite calculate_depth_bound by blast

subsection \<open>The parents of a name\<close>

lemma map_of_dict_append:
  "map_of (dict_append d k v) = (map_of d)(k \<mapsto> dict_get d k [] @ [v])"
proof (cases "dict_has d k")
  case True
  then obtain vs where "map_of d k = Some vs"
    by (auto simp: dict_has_def weak_map_of_SomeI dest: map_of_eq_None_iff[THEN iffD1, rotated])
       (metis domD dom_map_of_conv_image_fst image_eqI fst_conv)
  then show ?thesis
    using True by (auto simp: dict_append_def dict_get_def map_of_map_entry fun_eq_iff)
next
  case False
  then have "map_of d k = None"
    by (simp add: dict_has_def map_of_eq_None_iff)
  then show ?thesis
    using False
    by (auto simp: dict_append_def dict_get_def map_add_def fun_eq_iff split: option.splits)
qed

lemma dict_get_dict_append:
  "dict_get (dict_append d k v) c [] = (if c = k then dict_get d k [] @ [v] else dict_get d c [])"
  by (simp add: dict_get_def[of "dict_append d k v"] map_of_dict_append) (simp add: dict_get_def)

text \<open>
  \<^verbatim>\<open>child_to_parents.get(c, [])\<close> is the list of the parents of the edges that end
  in \<open>c\<close>, in the order of the relationships.
\<close>

lemma parents_of_child:
  "dict_get (build_child_to_parents rels) c [] = map fst (filter (\<lambda>r. snd r = c) rels)"
proof (induction rels arbitrary: c rule: rev_induct)
  case Nil
  show ?case by (simp add: build_child_to_parents_def dict_get_def)
next
  case (snoc r rels)
  obtain p c' where r: "r = (p, c')" by (cases r)
  have "build_child_to_parents (rels @ [r]) = dict_append (build_child_to_parents rels) c' p"
    by (simp add: build_child_to_parents_def r)
  then show ?case
    by (simp add: dict_get_dict_append snoc.IH r)
qed

lemma fold_max_same:
  "set ps \<subseteq> {b} \<Longrightarrow>
   fold (\<lambda>p m. max m (f p)) ps (m0::nat) = (if ps = [] then m0 else max m0 (f b))"
  by (induction ps arbitrary: m0) (auto simp: max.assoc)

lemma fold_max_single:
  "ps \<noteq> [] \<Longrightarrow> set ps \<subseteq> {b} \<Longrightarrow> fold (\<lambda>p m. max m (f p)) ps (m0::nat) = max m0 (f b)"
  by (simp add: fold_max_same)

lemma two_cycle_depth_aux:
  assumes ab: "a \<noteq> b"
    and pa: "set (dict_get g a []) = {b}"
    and pb: "set (dict_get g b []) = {a}"
  shows "calculate_depth g a {} = 2"
proof -
  have na: "dict_get g a [] \<noteq> []" and nb: "dict_get g b [] \<noteq> []"
    using pa pb by auto
  have d0: "calculate_depth g a {a, b} = 0"
    by (subst calculate_depth.simps) simp
  have d1: "calculate_depth g b {a} = 1"
    using ab nb pb d0
    by (subst calculate_depth.simps) (simp add: fold_max_single[where b = a] insert_commute)
  show ?thesis
    using na pa d1
    by (subst calculate_depth.simps) (simp add: fold_max_single[where b = b])
qed

text \<open>
  C6, as the code behaves. When the relationships contain the two-node cycle (the only
  parent of \<open>a\<close> is \<open>b\<close> and the only parent of \<open>b\<close> is \<open>a\<close>, with \<open>a \<noteq> b\<close>), the
  depth computation returns for both names, and it returns 2 for each: the traversal
  from \<open>a\<close> visits \<open>b\<close>, comes back to \<open>a\<close>, and only that revisit contributes 0.
  Neither name receives depth 0.
\<close>

theorem two_cycle_depth:
  assumes "a \<noteq> b"
    and "{p. (p, a) \<in> set rels} = {b}"
    and "{p. (p, b) \<in> set rels} = {a}"
  shows "calculate_depth (build_child_to_parents rels) a {} = 2 \<and>
         calculate_depth (build_child_to_parents rels) b {} = 2"
proof -
  have "set (dict_get (build_child_to_parents rels) c []) = {p. (p, c) \<in> set rels}" for c
    by (force simp: parents_of_child)
  then show ?thesis
    using assms two_cycle_depth_aux[of a b] two_cycle_depth_aux[of b a] by simp
qed

theorem two_cycle_depth_witness:
  "calculate_depth (build_child_to_parents [(''A'', ''B''), (''B'', ''A'')]) ''A'' {} = 2 \<and>
   calculate_depth (build_child_to_parents [(''A'', ''B''), (''B'', ''A'')]) ''B'' {} = 2"
  using two_cycle_depth[of "''A''" "''B''" "[(''A'', ''B''), (''B'', ''A'')]"] by auto

text \<open>
  The claim as stated (one of the two names gets depth 0) fails on the groups
  \<^verbatim>\<open>{A: [B], B: [A]}\<close>: the build succeeds and both names get depth 2.
\<close>

theorem two_cycle_no_zero_depth:
  "generate_hierarchy_files
     [(''A'', [\<lparr>name = ''B'', food_group = ''g''\<rparr>]),
      (''B'', [\<lparr>name = ''A'', food_group = ''g''\<rparr>])] []
   = Inr \<lparr>all_ingredients =
            [(''A'', \<lparr>name = ''A'', food_group = ''g'', hierarchy_depth = 2\<rparr>),
             (''B'', \<lparr>name = ''B'', food_group = ''g'', hierarchy_depth = 2\<rparr>)],
          parent_child_relationships = [(''A'', ''B''), (''B'', ''A'')]\<rparr>"
  by code_simp

subsection \<open>The proposal parser\<close>

lemma parse_line_agree:
  "agree_on P s t \<Longrightarrow> agree_on P (parse_line s l) (parse_line t l)"
  by (auto simp: agree_on_def parse_line_def Let_def AList.update_conv' map_of_map_entry)

lemma foldl_parse_line_agree:
  "agree_on P s t \<Longrightarrow> agree_on P (foldl parse_line s ls) (foldl parse_line t ls)"
proof (induction ls arbitrary: s t)
  case Nil
  then show ?case by simp
next
  case (Cons l ls)
  show ?case
    using Cons.IH[OF parse_line_agree[OF Cons.prems]] by simp
qed

lemma parse_line_header:
  assumes "strip h = CHR ''['' # P @ '']''"
  shows "parse_line s h = (AList.update P [] (fst s), Some P)"
  using assms by (simp add: parse_line_def Let_def startswith_def endswith_def butlast_append)

lemma parse_line_distinct:
  "distinct (map fst (fst s)) \<Longrightarrow> distinct (map fst (fst (parse_line s l)))"
  by (auto simp: parse_line_def Let_def AList.distinct_update AList.distinct_map_entry)

lemma foldl_parse_line_distinct:
  "distinct (map fst (fst s)) \<Longrightarrow> distinct (map fst (fst (foldl parse_line s ls)))"
proof (induction ls arbitrary: s)
  case Nil
  then show ?case by simp
next
  case (Cons l ls)
  show ?case
    using Cons.IH[OF parse_line_distinct[OF Cons.prems]] by simp
qed

lemma map_of_nonempty_groups:
  "distinct (map fst c) \<Longrightarrow>
   map_of (filter (\<lambda>(parent, children). children \<noteq> []) c) P =
     (case map_of c P of None \<Rightarrow> None | Some cs \<Rightarrow> if cs = [] then None else Some cs)"
proof (induction c)
  case Nil
  show ?case by simp
next
  case (Cons x c)
  obtain k v where x: "x = (k, v)" by (cases x)
  have "k \<notin> fst ` set c" using Cons.prems by (simp add: x)
  then have none: "map_of (filter (\<lambda>(parent, children). children \<noteq> []) c) k = None"
    by (auto simp: map_of_eq_None_iff image_iff)
  show ?case
    using Cons none by (auto simp: x split: option.splits)
qed

lemma map_of_parse_lines:
  "map_of (parse_lines ls) P =
     (case map_of (fst (foldl parse_line ([], None) ls)) P of
        None \<Rightarrow> None | Some cs \<Rightarrow> if cs = [] then None else Some cs)"
  unfolding parse_lines_def
  by (rule map_of_nonempty_groups) (simp add: foldl_parse_line_distinct)

text \<open>
  C10. When a line is the header \<^verbatim>\<open>[P]\<close> (after stripping), whatever the file holds
  before that line does not reach the parsed entry of \<open>P\<close>: the header stores an empty
  child list under \<open>P\<close>, so the result for \<open>P\<close> is the one of the file that starts at
  this header. For the last header of \<open>P\<close> this says that only the children listed
  after it are kept; the children under an earlier header of \<open>P\<close> are discarded, not
  merged.
\<close>

theorem repeated_header_resets:
  assumes "strip h = CHR ''['' # P @ '']''"
  shows "map_of (parse_lines (pre @ h # post)) P = map_of (parse_lines (h # post)) P"
proof -
  have "agree_on P (parse_line (foldl parse_line ([], None) pre) h) (parse_line ([], None) h)"
    by (simp add: parse_line_header[OF assms] agree_on_def AList.update_conv')
  then have "agree_on P (foldl parse_line ([], None) (pre @ h # post))
                        (foldl parse_line ([], None) (h # post))"
    by (simp add: foldl_parse_line_agree)
  then show ?thesis
    by (simp add: map_of_parse_lines agree_on_def)
qed

theorem repeated_header_resets_witness:
  "strip '' [P] '' = CHR ''['' # ''P'' @ '']'' \<and>
   map_of (parse_lines ([''[P]'', ''a,g'', ''b,g'', ''[Q]'', ''c,g''] @ '' [P] '' # [''d,h''])) ''P''
     = Some [\<lparr>name = ''d'', food_group = ''h''\<rparr>]"
proof -
  have h: "strip '' [P] '' = CHR ''['' # ''P'' @ '']''" by code_simp
  have "map_of (parse_lines ('' [P] '' # [''d,h''])) ''P''
          = Some [\<lparr>name = ''d'', food_group = ''h''\<rparr>]"
    by code_simp
  then show ?thesis
    using h repeated_header_resets[OF h, of "[''[P]'', ''a,g'', ''b,g'', ''[Q]'', ''c,g'']" "[''d,h'']"]
    by simp
qed

subsection \<open>Groups with a single child\<close>

lemma foldl_counter_add_nonempty:
  "c \<noteq> [] \<or> xs \<noteq> [] \<Longrightarrow> foldl counter_add c xs \<noteq> []"
  by (induction xs arbitrary: c) (auto simp: counter_add_def)

lemma determine_parent_food_group_ok:
  "children \<noteq> [] \<Longrightarrow> \<exists>g. determine_parent_food_group children = Inr g"
  using foldl_counter_add_nonempty[of "[]" "map food_group children"]
  by (auto simp: determine_parent_food_group_def split: list.splits)

lemma keys_add_if_absent:
  "fst ` set (add_if_absent d n) = insert (name n) (fst ` set d)"
  by (auto simp: add_if_absent_def dict_has_def)

lemma add_children_keys_mono:
  "fst ` set (fst st) \<subseteq> fst ` set (fst (add_children P cs st))"
proof (induction cs arbitrary: st)
  case Nil
  show ?case by simp
next
  case (Cons c cs)
  obtain ings rels where st: "st = (ings, rels)" by (cases st)
  show ?case
    using Cons.IH[of "(ings, rels)"]
      Cons.IH[of "(add_if_absent ings \<lparr>name = name c, food_group = food_group c, hierarchy_depth = 1\<rparr>,
                   rels @ [(P, name c)])"]
    by (auto simp: st keys_add_if_absent)
qed

lemma add_children_rels_mono:
  "set (snd st) \<subseteq> set (snd (add_children P cs st))"
proof (induction cs arbitrary: st)
  case Nil
  show ?case by simp
next
  case (Cons c cs)
  obtain ings rels where st: "st = (ings, rels)" by (cases st)
  show ?case
    using Cons.IH[of "(ings, rels)"]
      Cons.IH[of "(add_if_absent ings \<lparr>name = name c, food_group = food_group c, hierarchy_depth = 1\<rparr>,
                   rels @ [(P, name c)])"]
    by (auto simp: st)
qed

lemma add_children_edges:
  "c \<in> set cs \<Longrightarrow> name c \<noteq> P \<Longrightarrow> (P, name c) \<in> set (snd (add_children P cs st))"
proof (induction cs arbitrary: st)
  case Nil
  then show ?case by simp
next
  case (Cons c' cs)
  obtain ings rels where st: "st = (ings, rels)" by (cases st)
  show ?case
  proof (cases "c = c'")
    case True
    show ?thesis
      using Cons.prems(2) True
        add_children_rels_mono[of "(add_if_absent ings \<lparr>name = name c, food_group = food_group c, hierarchy_depth = 1\<rparr>,
                   rels @ [(P, name c)])" P cs]
      by (auto simp: st)
  next
    case False
    then have "c \<in> set cs" using Cons.prems by simp
    then show ?thesis
      using Cons.IH[OF _ Cons.prems(2)] by (simp add: st)
  qed
qed

lemma add_parents_ok:
  assumes "\<forall>(P, cs) \<in> set cons. cs \<noteq> []"
  shows "\<exists>st'. add_parents cons st = Inr st' \<and>
           fst ` set (fst st) \<subseteq> fst ` set (fst st') \<and>
           set (snd st) \<subseteq> set (snd st') \<and>
           (\<forall>(P, cs) \<in> set cons. P \<in> fst ` set (fst st') \<and>
              (\<forall>c \<in> set cs. name c \<noteq> P \<longrightarrow> (P, name c) \<in> set (snd st')))"
  using assms
proof (induction cons arbitrary: st)
  case Nil
  show ?case by simp
next
  case (Cons x cons)
  obtain P cs where x: "x = (P, cs)" by (cases x)
  obtain ings rels where st: "st = (ings, rels)" by (cases st)
  from Cons.prems have ne: "cs \<noteq> []" and rest: "\<forall>(P, cs) \<in> set cons. cs \<noteq> []"
    by (auto simp: x)
  from determine_parent_food_group_ok[OF ne]
  obtain g where g: "determine_parent_food_group cs = Inr g" by blast
  define st1 where "st1 = add_children P cs
      (add_if_absent ings \<lparr>name = P, food_group = g, hierarchy_depth = 0\<rparr>, rels)"
  from Cons.IH[OF rest, of st1]
  obtain st' where run: "add_parents cons st1 = Inr st'"
    and k: "fst ` set (fst st1) \<subseteq> fst ` set (fst st')"
    and r: "set (snd st1) \<subseteq> set (snd st')"
    and all: "\<forall>(P, cs) \<in> set cons. P \<in> fst ` set (fst st') \<and>
              (\<forall>c \<in> set cs. name c \<noteq> P \<longrightarrow> (P, name c) \<in> set (snd st'))"
    by blast
  have k1: "insert P (fst ` set ings) \<subseteq> fst ` set (fst st1)"
    unfolding st1_def
    using add_children_keys_mono[of "(add_if_absent ings \<lparr>name = P, food_group = g, hierarchy_depth = 0\<rparr>, rels)" P cs]
    by (simp add: keys_add_if_absent)
  have r1: "set rels \<subseteq> set (snd st1)"
    unfolding st1_def
    using add_children_rels_mono[of "(add_if_absent ings \<lparr>name = P, food_group = g, hierarchy_depth = 0\<rparr>, rels)" P cs]
    by simp
  have e1: "\<forall>c \<in> set cs. name c \<noteq> P \<longrightarrow> (P, name c) \<in> set (snd st1)"
    unfolding st1_def by (blast intro: add_children_edges)
  have "add_parents (x # cons) st = Inr st'"
    by (simp add: x st g run[unfolded st1_def])
  moreover have "fst ` set (fst st) \<subseteq> fst ` set (fst st')"
  proof -
    have "fst ` set ings \<subseteq> fst ` set (fst st1)" using k1 by blast
    then have "fst ` set ings \<subseteq> fst ` set (fst st')" using k by (rule order_trans)
    then show ?thesis by (simp add: st)
  qed
  moreover have "set (snd st) \<subseteq> set (snd st')"
    using r r1 by (auto simp: st)
  moreover have "\<forall>(P, cs) \<in> set (x # cons). P \<in> fst ` set (fst st') \<and>
              (\<forall>c \<in> set cs. name c \<noteq> P \<longrightarrow> (P, name c) \<in> set (snd st'))"
    using all k k1 r e1 by (auto simp: x)
  ultimately show ?case by blast
qed

lemma add_standalone_keys_mono:
  "fst ` set d \<subseteq> fst ` set (add_standalone df d)"
proof (induction df arbitrary: d)
  case Nil
  show ?case by simp
next
  case (Cons row df)
  obtain n g where row: "row = (n, g)" by (cases row)
  show ?case
    using Cons.IH[of "add_if_absent d \<lparr>name = n, food_group = g, hierarchy_depth = 0\<rparr>"]
    by (auto simp: row keys_add_if_absent)
qed

lemma keys_set_depths: "fst ` set (set_depths g d) = fst ` set d"
  by (force simp: set_depths_def)

lemma parse_lines_nonempty: "\<forall>(P, cs) \<in> set (parse_lines ls). cs \<noteq> []"
  by (auto simp: parse_lines_def)

text \<open>
  C2, as the code behaves. Whenever the parsed proposal holds a group with exactly one
  child, the build succeeds and keeps the group: the parent is an ingredient of the
  result, and the edge from the parent to the child is among the relationships unless
  the child has the parent's own name. The parser removes only the groups without any
  child, and the build has no minimum group size.
\<close>

theorem single_child_group_retained:
  assumes "map_of (parse_consolidation_proposal text) P = Some [c]"
  shows "\<exists>h. generate_hierarchy_files (parse_consolidation_proposal text) df = Inr h \<and>
           dict_has (all_ingredients h) P \<and>
           (name c \<noteq> P \<longrightarrow> (P, name c) \<in> set (parent_child_relationships h))"
proof -
  let ?cons = "parse_consolidation_proposal text"
  have ne: "\<forall>(P, cs) \<in> set ?cons. cs \<noteq> []"
    unfolding parse_consolidation_proposal_def by (rule parse_lines_nonempty)
  have mem: "(P, [c]) \<in> set ?cons"
    using assms by (rule map_of_SomeD)
  from add_parents_ok[OF ne, of "([], [])"]
  obtain st' where run: "add_parents ?cons ([], []) = Inr st'"
    and all: "\<forall>(P, cs) \<in> set ?cons. P \<in> fst ` set (fst st') \<and>
              (\<forall>c \<in> set cs. name c \<noteq> P \<longrightarrow> (P, name c) \<in> set (snd st'))"
    by blast
  obtain ings rels where st': "st' = (ings, rels)" by (cases st')
  from all mem have P: "P \<in> fst ` set ings"
    and e: "name c \<noteq> P \<longrightarrow> (P, name c) \<in> set rels"
    by (auto simp: st')
  have "dict_has (set_depths (build_child_to_parents rels) (add_standalone df ings)) P"
    using P add_standalone_keys_mono[of ings df] by (auto simp: dict_has_def keys_set_depths)
  then show ?thesis
    using run e by (simp add: generate_hierarchy_files_def st')
qed

theorem single_child_group_retained_witness:
  "map_of (parse_consolidation_proposal proposal_one_child) ''CHEESE''
     = Some [\<lparr>name = ''cheddar cheese'', food_group = ''dairy''\<rparr>] \<and>
   (\<exists>h. generate_hierarchy_files (parse_consolidation_proposal proposal_one_child) [] = Inr h \<and>
        dict_has (all_ingredients h) ''CHEESE'' \<and>
        (''CHEESE'', ''cheddar cheese'') \<in> set (parent_child_relationships h))"
proof -
  have h: "map_of (parse_consolidation_proposal proposal_one_child) ''CHEESE''
     = Some [\<lparr>name = ''cheddar cheese'', food_group = ''dairy''\<rparr>]"
    by code_simp
  show ?thesis
    using h single_child_group_retained[OF h, of "[]"] by simp
qed

text \<open>
  The claim as stated (a group with one remaining child is dropped) fails on the
  proposal whose second child line is commented out: the parent \<^verbatim>\<open>CHEESE\<close> is
  emitted with its edge to \<^verbatim>\<open>cheddar cheese\<close>.
\<close>

theorem single_child_group_counterexample:
  "generate_hierarchy_files (parse_consolidation_proposal proposal_one_child) []
   = Inr \<lparr>all_ingredients =
            [(''CHEESE'', \<lparr>name = ''CHEESE'', food_group = ''dairy'', hierarchy_depth = 0\<rparr>),
             (''cheddar cheese'', \<lparr>name = ''cheddar cheese'', food_group = ''dairy'', hierarchy_depth = 1\<rparr>)],
          parent_child_relationships = [(''CHEESE'', ''cheddar cheese'')]\<rparr>"
  by code_simp

subsection \<open>The word index\<close>

lemma dict_has_map_of: "dict_has d k \<longleftrightarrow> map_of d k \<noteq> None"
  by (simp add: dict_has_def map_of_eq_None_iff)

lemma dict_get_counter_add:
  "dict_get (counter_add c k) w 0 = (if w = k then dict_get c k 0 + 1 else dict_get c w 0)"
  by (simp add: counter_add_def dict_get_def AList.update_conv')

lemma dict_get_foldl_counter_add:
  "dict_get (foldl counter_add c ws) w 0 = dict_get c w 0 + count_list ws w"
  by (induction ws arbitrary: c) (simp_all add: dict_get_counter_add)

lemma map_of_posting_add:
  "map_of (posting_add d k v) = (map_of d)(k \<mapsto> set_add (dict_get d k []) v)"
proof (cases "map_of d k")
  case None
  then show ?thesis
    by (auto simp: posting_add_def dict_has_map_of dict_get_def set_add_def map_add_def fun_eq_iff
             split: option.splits)
next
  case (Some vs)
  then show ?thesis
    by (auto simp: posting_add_def dict_has_map_of dict_get_def map_of_map_entry fun_eq_iff)
qed

lemma dict_get_posting_add:
  "dict_get (posting_add d k v) w [] =
     (if w = k then set_add (dict_get d k []) v else dict_get d w [])"
  by (simp add: dict_get_def[of "posting_add d k v"] map_of_posting_add) (simp add: dict_get_def)

lemma fst_foldl_index_word:
  "fst (foldl (index_word n) idx ws) = foldl counter_add (fst idx) ws"
  by (induction ws arbitrary: idx) (simp_all add: index_word_def)

lemma snd_foldl_index_word:
  "snd (foldl (index_word n) idx ws) = foldl (\<lambda>d word. posting_add d word n) (snd idx) ws"
  by (induction ws arbitrary: idx) (simp_all add: index_word_def)

lemma set_postings_foldl:
  "set (dict_get (foldl (\<lambda>d word. posting_add d word n) d ws) w []) =
     set (dict_get d w []) \<union> (if w \<in> set ws then {n} else {})"
  by (induction ws arbitrary: d) (auto simp: dict_get_posting_add set_add_def)

lemma frequency_foldl_index_row:
  "dict_get (fst (foldl index_row idx df)) w 0 =
     dict_get (fst idx) w 0 + sum_list (map (\<lambda>row. count_list (extract_meaningful_words (fst row)) w) df)"
  by (induction df arbitrary: idx)
     (simp_all add: index_row_def fst_foldl_index_word dict_get_foldl_counter_add)

lemma postings_foldl_index_row:
  "set (dict_get (snd (foldl index_row idx df)) w []) =
     set (dict_get (snd idx) w []) \<union> {n \<in> fst ` set df. w \<in> set (extract_meaningful_words n)}"
  by (induction df arbitrary: idx)
     (auto simp: index_row_def snd_foldl_index_word set_postings_foldl)

text \<open>
  C5, as the code behaves. The count of a word in \<^verbatim>\<open>word_frequency\<close> is the number of
  its occurrences in the word lists of all rows, repetitions within one name included
  (a word that appears twice in one name adds 2); the set of the ingredients whose
  word list contains the word is what \<^verbatim>\<open>word_to_ingredients\<close> holds.
\<close>

theorem word_frequency_counts_tokens:
  "dict_get (fst (find_word_frequencies df)) w 0 =
     sum_list (map (\<lambda>row. count_list (extract_meaningful_words (fst row)) w) df) \<and>
   set (dict_get (snd (find_word_frequencies df)) w []) =
     {n \<in> fst ` set df. w \<in> set (extract_meaningful_words n)}"
proof -
  have e0: "dict_get ([]::(string \<times> nat) list) w 0 = 0"
    and e1: "dict_get ([]::(string \<times> string list) list) w [] = []"
    by (simp_all add: dict_get_def)
  show ?thesis
    unfolding find_word_frequencies_def frequency_foldl_index_row postings_foldl_index_row
    by (simp add: e0 e1)
qed

text \<open>
  The claim as stated (a repeated word counts once per ingredient) fails on the single
  ingredient \<^verbatim>\<open>CHEESE CHEESE\<close>: the count of \<^verbatim>\<open>CHEESE\<close> is 2 although one
  ingredient contains it.
\<close>

theorem repeated_word_counted_twice:
  "dict_get (fst (find_word_frequencies [(''CHEESE CHEESE'', ''Dairy'')])) ''CHEESE'' 0 = 2 \<and>
   dict_get (snd (find_word_frequencies [(''CHEESE CHEESE'', ''Dairy'')])) ''CHEESE'' []
     = [''CHEESE CHEESE'']"
  by code_simp

subsection \<open>The order of the candidate words\<close>




subsection \<open>The cheese example\<close>

text \<open>
  C1, as the code behaves. On the four ingredients of \<open>cheese_df\<close> the word
  \<^verbatim>\<open>CHEESE\<close> is posted for exactly the three cheeses and not for
  \<^verbatim>\<open>ORANGE JUICE\<close>. It occurs in 3 of 4 ingredients, more than the 10 percent that
  \<^verbatim>\<open>MAX_INGREDIENT_PERCENTAGE\<close> allows, so its score is 0; it is classified as a
  processing term; no word reaches the threshold and the assignment returns no group.
\<close>

theorem cheese_example:
  "dict_get (snd (find_word_frequencies cheese_df)) ''CHEESE'' []
     = [''CHEDDAR CHEESE'', ''SWISS CHEESE'', ''COTTAGE CHEESE''] \<and>
   calculate_grouping_potential ''CHEESE''
     [''CHEDDAR CHEESE'', ''SWISS CHEESE'', ''COTTAGE CHEESE''] (map fst cheese_df) = 0 \<and>
   ''CHEESE'' \<in> identify_processing_terms_dynamically
                  (fst (find_word_frequencies cheese_df)) (snd (find_word_frequencies cheese_df)) \<and>
   word_scores cheese_df = [] \<and>
   find_consolidation_groups cheese_df = Inr []"
  by code_simp

text \<open>
  The claim as stated (score at least 30, not a processing term, a group of the three
  cheeses) fails on the same input.
\<close>

theorem cheese_claim_fails:
  "\<not> (MIN_SCORE_THRESHOLD \<le> calculate_grouping_potential ''CHEESE''
         (dict_get (snd (find_word_frequencies cheese_df)) ''CHEESE'' []) (map fst cheese_df) \<and>
       ''CHEESE'' \<notin> identify_processing_terms_dynamically
                  (fst (find_word_frequencies cheese_df)) (snd (find_word_frequencies cheese_df)) \<and>
       find_consolidation_groups cheese_df =
         Inr [(''CHEESE'', [\<lparr>name = ''CHEDDAR CHEESE'', food_group = ''Dairy''\<rparr>,
                            \<lparr>name = ''SWISS CHEESE'', food_group = ''Dairy''\<rparr>,
                            \<lparr>name = ''COTTAGE CHEESE'', food_group = ''Dairy''\<rparr>])])"
  by code_simp

subsection \<open>The cap on the parents of an ingredient\<close>

lemma count_list_distinct:
  "distinct xs \<Longrightarrow> count_list xs x = (if x \<in> set xs then 1 else 0)"
  by (induction xs) auto

lemma distinct_set_add: "distinct xs \<Longrightarrow> distinct (set_add xs x)"
  by (simp add: set_add_def)

lemma distinct_postings_foldl:
  "(\<And>w. distinct (dict_get d w [])) \<Longrightarrow>
   distinct (dict_get (foldl (\<lambda>d word. posting_add d word n) d ws) w [])"
proof (induction ws arbitrary: d w)
  case Nil
  then show ?case by simp
next
  case (Cons a ws)
  have "distinct (dict_get (posting_add d a n) w' [])" for w'
    using Cons.prems by (simp add: dict_get_posting_add distinct_set_add)
  then show ?case
    using Cons.IH[of "posting_add d a n" w] by simp
qed

lemma distinct_postings_rows:
  "(\<And>w. distinct (dict_get (snd idx) w [])) \<Longrightarrow>
   distinct (dict_get (snd (foldl index_row idx df)) w [])"
proof (induction df arbitrary: idx w)
  case Nil
  then show ?case by simp
next
  case (Cons row df)
  have "distinct (dict_get (snd (index_row idx row)) w' [])" for w'
    using Cons.prems by (simp add: index_row_def snd_foldl_index_word distinct_postings_foldl)
  then show ?case
    using Cons.IH[of "index_row idx row" w] by simp
qed

lemma postings_distinct:
  "distinct (dict_get (snd (find_word_frequencies df)) w [])"
  unfolding find_word_frequencies_def
  by (rule distinct_postings_rows) (simp add: dict_get_def)

lemma postings_in_df:
  "set (dict_get (snd (find_word_frequencies df)) w []) \<subseteq> fst ` set df"
proof -
  have "dict_get ([]::(string \<times> string list) list) w [] = []"
    by (simp add: dict_get_def)
  then show ?thesis
    unfolding find_word_frequencies_def postings_foldl_index_row by auto
qed

lemma add_members_result:
  assumes "set avail \<subseteq> fst ` set df"
  shows "add_members df avail (gd, c) =
           Inr (gd @ map (\<lambda>i. \<lparr>name = i, food_group = the (map_of df i)\<rparr>) avail,
                foldl counter_add c avail)"
  using assms
proof (induction avail arbitrary: gd c)
  case Nil
  show ?case by simp
next
  case (Cons i avail)
  then have "i \<in> fst ` set df" by simp
  then have "map_of df i \<noteq> None" by (simp add: map_of_eq_None_iff)
  then obtain fg where fg: "map_of df i = Some fg" by blast
  show ?case
    using Cons.IH[of "gd @ [\<lparr>name = i, food_group = fg\<rparr>]" "counter_add c i"] Cons.prems
    by (simp add: fg)
qed

lemma available_props:
  assumes "distinct iww"
  shows "distinct (take j (available_ingredients c iww))"
    and "set (take j (available_ingredients c iww)) \<subseteq> set iww"
    and "ing \<in> set (take j (available_ingredients c iww)) \<Longrightarrow>
           dict_get c ing 0 < MAX_PARENTS_PER_INGREDIENT"
proof -
  show "distinct (take j (available_ingredients c iww))"
    using assms by (simp add: available_ingredients_def)
  have "set (take j (available_ingredients c iww)) \<subseteq> set (available_ingredients c iww)"
    by (rule set_take_subset)
  then show "set (take j (available_ingredients c iww)) \<subseteq> set iww"
    and "ing \<in> set (take j (available_ingredients c iww)) \<Longrightarrow>
           dict_get c ing 0 < MAX_PARENTS_PER_INGREDIENT"
    by (auto simp: available_ingredients_def)
qed

lemma counts_after_members:
  assumes cap: "\<And>ing. dict_get c ing 0 \<le> MAX_PARENTS_PER_INGREDIENT"
    and d: "distinct avail"
    and lt: "\<And>ing. ing \<in> set avail \<Longrightarrow> dict_get c ing 0 < MAX_PARENTS_PER_INGREDIENT"
  shows "dict_get (foldl counter_add c avail) ing 0 \<le> MAX_PARENTS_PER_INGREDIENT"
    and "dict_get (foldl counter_add c avail) ing 0 =
           dict_get c ing 0 + (if ing \<in> set avail then 1 else 0)"
proof -
  show e: "dict_get (foldl counter_add c avail) ing 0 =
           dict_get c ing 0 + (if ing \<in> set avail then 1 else 0)"
    by (simp add: dict_get_foldl_counter_add count_list_distinct[OF d])
  show "dict_get (foldl counter_add c avail) ing 0 \<le> MAX_PARENTS_PER_INGREDIENT"
    unfolding e using cap[of ing] lt[of ing] by auto
qed

lemma groups_of_update:
  "groups_of (AList.update w gd g) ing \<le> groups_of g ing + (if ing \<in> name ` set gd then 1 else 0)"
  by (induction g) (auto simp: groups_of_def)

lemma assign_word_inv:
  assumes cap: "\<And>ing. dict_get (snd st) ing 0 \<le> MAX_PARENTS_PER_INGREDIENT"
    and grp: "\<And>ing. groups_of (fst st) ing \<le> dict_get (snd st) ing 0"
    and dist: "\<And>w. distinct (dict_get wti w [])"
    and indf: "\<And>w. set (dict_get wti w []) \<subseteq> fst ` set df"
  shows "\<exists>st'. assign_word df wti st ws = Inr st' \<and>
           (\<forall>ing. dict_get (snd st') ing 0 \<le> MAX_PARENTS_PER_INGREDIENT) \<and>
           (\<forall>ing. groups_of (fst st') ing \<le> dict_get (snd st') ing 0)"
proof -
  define avail where "avail = available_ingredients (snd st) (dict_get wti (fst ws) [])"
  have av: "distinct avail" "set avail \<subseteq> fst ` set df"
    "\<And>ing. ing \<in> set avail \<Longrightarrow> dict_get (snd st) ing 0 < MAX_PARENTS_PER_INGREDIENT"
    using available_props[OF dist[of "fst ws"], where j = "length avail" and c = "snd st"]
      indf[of "fst ws"]
    by (auto simp: avail_def)
  define gd where "gd = map (\<lambda>i. \<lparr>name = i, food_group = the (map_of df i)\<rparr>) avail"
  define c' where "c' = foldl counter_add (snd st) avail"
  have run: "add_members df avail ([], snd st) = Inr (gd, c')"
    using add_members_result[OF av(2), of "[]" "snd st"] by (simp add: gd_def c'_def)
  have names: "name ` set gd = set avail"
    by (force simp: gd_def)
  show ?thesis
  proof (cases "2 \<le> length avail")
    case False
    then have "assign_word df wti st ws = Inr st"
      by (simp add: assign_word_def avail_def[symmetric])
    then show ?thesis using cap grp by auto
  next
    case True
    then have res: "assign_word df wti st ws = Inr (AList.update (fst ws) gd (fst st), c')"
      by (simp add: assign_word_def avail_def[symmetric] run)
    have c1: "dict_get c' ing 0 \<le> MAX_PARENTS_PER_INGREDIENT" for ing
      unfolding c'_def using cap av(1) av(3) by (rule counts_after_members(1))
    have c2: "dict_get c' ing 0 = dict_get (snd st) ing 0 + (if ing \<in> set avail then 1 else 0)" for ing
      unfolding c'_def using cap av(1) av(3) by (rule counts_after_members(2))
    have g: "groups_of (AList.update (fst ws) gd (fst st)) ing \<le> dict_get c' ing 0" for ing
      using groups_of_update[of "fst ws" gd "fst st" ing] grp[of ing]
      by (simp add: names c2)
    show ?thesis
      using res c1 g by simp
  qed
qed

lemma assign_groups_inv:
  assumes cap: "\<And>ing. dict_get (snd st) ing 0 \<le> MAX_PARENTS_PER_INGREDIENT"
    and grp: "\<And>ing. groups_of (fst st) ing \<le> dict_get (snd st) ing 0"
    and dist: "\<And>w. distinct (dict_get wti w [])"
    and indf: "\<And>w. set (dict_get wti w []) \<subseteq> fst ` set df"
  shows "\<exists>st'. assign_groups df wti wss st = Inr st' \<and>
           (\<forall>ing. dict_get (snd st') ing 0 \<le> MAX_PARENTS_PER_INGREDIENT) \<and>
           (\<forall>ing. groups_of (fst st') ing \<le> dict_get (snd st') ing 0)"
  using cap grp
proof (induction wss arbitrary: st)
  case Nil
  then show ?case by simp
next
  case (Cons ws wss)
  from assign_word_inv[of st wti df ws, OF Cons.prems(1) Cons.prems(2) dist indf]
  obtain st1 where 1: "assign_word df wti st ws = Inr st1"
    and c: "\<And>ing. dict_get (snd st1) ing 0 \<le> MAX_PARENTS_PER_INGREDIENT"
    and g: "\<And>ing. groups_of (fst st1) ing \<le> dict_get (snd st1) ing 0"
    by blast
  from Cons.IH[of st1, OF c g] show ?case
    by (simp add: 1)
qed

text \<open>
  C3. For every data frame the assignment loop runs without error, and the parent count
  of every ingredient is at most \<open>MAX_PARENTS_PER_INGREDIENT = 3\<close> in every state the
  loop passes through: after any number \<open>k\<close> of candidate words, and from there after
  any number \<open>j\<close> of increments of the inner loop over the available ingredients of a
  word \<open>w\<close>. Consequently no ingredient is a child of more than 3 groups of the result
  of \<^verbatim>\<open>find_consolidation_groups\<close>.
\<close>

theorem parent_cap:
  "(\<forall>k. \<exists>groups parent_count.
      assign_prefix df k = Inr (groups, parent_count) \<and>
      (\<forall>ing. dict_get parent_count ing 0 \<le> MAX_PARENTS_PER_INGREDIENT) \<and>
      (\<forall>w j. \<exists>group_data parent_count'.
         add_members df
           (take j (available_ingredients parent_count
                      (dict_get (snd (find_word_frequencies df)) w [])))
           ([], parent_count) = Inr (group_data, parent_count') \<and>
         (\<forall>ing. dict_get parent_count' ing 0 \<le> MAX_PARENTS_PER_INGREDIENT))) \<and>
   (\<exists>groups. find_consolidation_groups df = Inr groups \<and>
      (\<forall>ing. groups_of groups ing \<le> MAX_PARENTS_PER_INGREDIENT))"
proof -
  let ?wti = "snd (find_word_frequencies df)"
  have dist: "\<And>w. distinct (dict_get ?wti w [])" by (rule postings_distinct)
  have indf: "\<And>w. set (dict_get ?wti w []) \<subseteq> fst ` set df" by (rule postings_in_df)
  have init: "\<And>ing. dict_get (snd (([], [])::assign_state)) ing 0 \<le> MAX_PARENTS_PER_INGREDIENT"
    "\<And>ing. groups_of (fst (([], [])::assign_state)) ing \<le> dict_get (snd (([], [])::assign_state)) ing 0"
    by (simp_all add: dict_get_def groups_of_def)
  have run: "\<exists>st'. assign_groups df ?wti wss ([], []) = Inr st' \<and>
           (\<forall>ing. dict_get (snd st') ing 0 \<le> MAX_PARENTS_PER_INGREDIENT) \<and>
           (\<forall>ing. groups_of (fst st') ing \<le> dict_get (snd st') ing 0)" for wss
    using init dist indf by (rule assign_groups_inv)
  have prefix: "\<exists>groups parent_count.
      assign_prefix df k = Inr (groups, parent_count) \<and>
      (\<forall>ing. dict_get parent_count ing 0 \<le> MAX_PARENTS_PER_INGREDIENT) \<and>
      (\<forall>w j. \<exists>group_data parent_count'.
         add_members df (take j (available_ingredients parent_count (dict_get ?wti w [])))
           ([], parent_count) = Inr (group_data, parent_count') \<and>
         (\<forall>ing. dict_get parent_count' ing 0 \<le> MAX_PARENTS_PER_INGREDIENT))" for k
  proof -
    from run[of "take k (sorted_words df)"]
    obtain g c where r: "assign_prefix df k = Inr (g, c)"
      and cap: "\<And>ing. dict_get c ing 0 \<le> MAX_PARENTS_PER_INGREDIENT"
      by (auto simp: assign_prefix_def)
    have inner: "\<exists>group_data parent_count'.
         add_members df (take j (available_ingredients c (dict_get ?wti w [])))
           ([], c) = Inr (group_data, parent_count') \<and>
         (\<forall>ing. dict_get parent_count' ing 0 \<le> MAX_PARENTS_PER_INGREDIENT)" for w j
    proof -
      let ?av = "take j (available_ingredients c (dict_get ?wti w []))"
      have d: "distinct ?av" and s: "set ?av \<subseteq> set (dict_get ?wti w [])"
        and lt: "\<And>ing. ing \<in> set ?av \<Longrightarrow> dict_get c ing 0 < MAX_PARENTS_PER_INGREDIENT"
        using available_props[OF dist[of w], where j = j and c = c] by auto
      have "set ?av \<subseteq> fst ` set df" using s indf[of w] by blast
      from add_members_result[OF this, of "[]" c]
      have "add_members df ?av ([], c) =
              Inr (map (\<lambda>i. \<lparr>name = i, food_group = the (map_of df i)\<rparr>) ?av, foldl counter_add c ?av)"
        by simp
      moreover have "\<forall>ing. dict_get (foldl counter_add c ?av) ing 0 \<le> MAX_PARENTS_PER_INGREDIENT"
        using counts_after_members(1)[OF cap d lt] by blast
      ultimately show ?thesis by blast
    qed
    show ?thesis using r cap inner by blast
  qed
  from run[of "sorted_words df"]
  obtain g c where r: "assign_groups df ?wti (sorted_words df) ([], []) = Inr (g, c)"
    and cap: "\<And>ing. dict_get c ing 0 \<le> MAX_PARENTS_PER_INGREDIENT"
    and grp: "\<And>ing. groups_of g ing \<le> dict_get c ing 0"
    by auto
  have final: "\<exists>groups. find_consolidation_groups df = Inr groups \<and>
      (\<forall>ing. groups_of groups ing \<le> MAX_PARENTS_PER_INGREDIENT)"
    using r cap grp by (auto simp: find_consolidation_groups_def intro: order_trans)
  show ?thesis using prefix final by blast
qed

text \<open>
  On \<open>cap_df\<close> the cap is reached: after the three groups \<^verbatim>\<open>AAA\<close>, \<^verbatim>\<open>BBB\<close>,
  \<^verbatim>\<open>CCC\<close> both ingredients have count 3, and the fourth word \<^verbatim>\<open>DDD\<close> forms no
  group.
\<close>

lemma parent_cap_reached:
  "assign_prefix cap_df 4 =
     Inr ([(''AAA'', [\<lparr>name = ''AAA BBB CCC DDD 1'', food_group = ''Fruit''\<rparr>,
                      \<lparr>name = ''AAA BBB CCC DDD 2'', food_group = ''Fruit''\<rparr>]),
           (''BBB'', [\<lparr>name = ''AAA BBB CCC DDD 1'', food_group = ''Fruit''\<rparr>,
                      \<lparr>name = ''AAA BBB CCC DDD 2'', food_group = ''Fruit''\<rparr>]),
           (''CCC'', [\<lparr>name = ''AAA BBB CCC DDD 1'', food_group = ''Fruit''\<rparr>,
                      \<lparr>name = ''AAA BBB CCC DDD 2'', food_group = ''Fruit''\<rparr>])],
          [(''AAA BBB CCC DDD 1'', 3), (''AAA BBB CCC DDD 2'', 3)])"
  by code_simp

subsection \<open>The tokenizer\<close>





















text \<open>The tokenizer on a name with punctuation, a stop word and short words.\<close>

lemma tokenizer_example:
  "clean_ingredient_name ''  cheddar  of (aged) cheese & co., 2-3 the''
     = ''CHEDDAR OF AGED CHEESE CO., 2-3 THE'' \<and>
   extract_meaningful_words ''  cheddar  of (aged) cheese & co., 2-3 the''
     = [''CHEDDAR'', ''AGED'', ''CHEESE'', ''CO.,'', ''2-3'']"
  by code_simp

subsection \<open>Writing and reading back the proposal\<close>


























end
